theory Spec2Isabelle
  imports Complex_Main "HOL-Library.Log_Nat" "HOL-Library.Multiset"
begin

section \<open>Data model\<close>

text \<open>
  The three SQLAlchemy models of \<^verbatim>\<open>hr_allocation_flask_app.py\<close> become records, one field
  per column, and a table is the list of its rows in insertion order. The field names are the
  column names; where two classes share a column name, or the name is taken, the class is
  added to it (\<open>user_id\<close>, \<open>resource_position\<close>, \<open>status_p\<close>).

  A \<^verbatim>\<open>DateTime\<close> is a point on the time line (microseconds since the epoch) and a
  \<^verbatim>\<open>Date\<close> a day number; both are natural numbers, so that \<^verbatim>\<open>ORDER BY\<close> has its order.
  Columns that are \<^verbatim>\<open>nullable=True\<close> and have no default (\<^verbatim>\<open>manager\<close>, \<^verbatim>\<open>start_date\<close>,
  \<^verbatim>\<open>end_date\<close>, \<^verbatim>\<open>current_project\<close>) are options. Columns with a default
  (\<^verbatim>\<open>availability\<close>, \<^verbatim>\<open>created_at\<close>, \<^verbatim>\<open>updated_at\<close>, \<^verbatim>\<open>status\<close>, \<^verbatim>\<open>position\<close>) always hold a
  value in a row written through the ORM, which replaces an absent or \<^verbatim>\<open>None\<close> attribute by
  the default; they are modelled without \<^verbatim>\<open>NULL\<close>. Python integers are unbounded: \<open>int\<close>.
\<close>

type_synonym datetime = nat
type_synonym date = nat

record user =
  user_id :: int
  user_name :: string
  email :: string
  password_hash :: string
  user_position :: string
  created_at :: datetime

record project =
  project_id :: int
  project_name :: string
  manager :: "string option"
  start_date :: "date option"
  end_date :: "date option"
  status_p :: string
  updated_at :: datetime

record resource =
  resource_id :: int
  resource_name :: string
  resource_position :: string
  availability :: int
  current_project :: "string option"

text \<open>
  JSON values as the handlers build them. \<open>JDateTime t\<close> and \<open>JDate d\<close> stand for the
  strings \<^verbatim>\<open>t.isoformat()\<close> and \<^verbatim>\<open>d.isoformat()\<close>; a dict is an association list in the
  order of the dict display.
\<close>

datatype json = JNull | JInt int | JStr string | JDateTime datetime | JDate date

type_synonym dict = "(string \<times> json) list"

text \<open>
  A handler returns \<^verbatim>\<open>jsonify(success=..., message=..., data=...)\<close>, alone (status 200) or
  paired with a status code. The payload type differs from endpoint to endpoint.
\<close>

record 'a response =
  status :: nat
  success :: bool
  message :: "string option"
  data :: "'a option"

definition jsonify_data :: "'a \<Rightarrow> 'a response" where
  "jsonify_data d = \<lparr>status = 200, success = True, message = None, data = Some d\<rparr>"

definition jsonify_success :: "'a response" where
  "jsonify_success = \<lparr>status = 200, success = True, message = None, data = None\<rparr>"

definition jsonify_failure :: "string \<Rightarrow> nat \<Rightarrow> 'a response" where
  "jsonify_failure msg code = \<lparr>status = code, success = False, message = Some msg, data = None\<rparr>"

text \<open>
  Exceptions a handler can raise; none is caught, and Flask turns an uncaught one into a 500
  response. \<open>UnicodeEncodeError\<close> is what encoding a text with a lone surrogate raises.
\<close>

datatype py_error = ZeroDivisionError | OverflowError | UnicodeEncodeError

section \<open>Python's true division and \<^verbatim>\<open>round\<close>\<close>

text \<open>
  \<^verbatim>\<open>a / b\<close> on two Python integers is the binary64 float nearest to the exact quotient
  (ties to the even significand); it raises \<^verbatim>\<open>ZeroDivisionError\<close> when \<^verbatim>\<open>b\<close> is 0 and
  \<^verbatim>\<open>OverflowError\<close> when the rounded quotient exceeds the largest float. A finite float is
  modelled by the rational number it denotes. \<^verbatim>\<open>round(x)\<close> with one argument is the nearest
  integer, a half going to the even neighbour.
\<close>

definition round_half_even :: "rat \<Rightarrow> int" where
  "round_half_even x =
     (let f = \<lfloor>x\<rfloor>; d = x - of_int f
      in if d < 1 / 2 then f
         else if 1 / 2 < d then f + 1
         else if even f then f else f + 1)"

definition pow2 :: "int \<Rightarrow> rat" where
  "pow2 e = (if 0 \<le> e then 2 ^ nat e else 1 / 2 ^ nat (- e))"

text \<open>The binary exponent of \<open>a / b\<close> for positive \<open>a\<close> and \<open>b\<close>: the \<open>e\<close> with \<open>2^e \<le> a / b < 2^(e+1)\<close>.\<close>

definition binade :: "int \<Rightarrow> int \<Rightarrow> int" where
  "binade a b =
     (let d = bitlen a - bitlen b
      in if of_int b * pow2 d \<le> (of_int a :: rat) then d else d - 1)"

text \<open>
  Rounding a positive quotient to binary64: 53 significant bits, the least exponent of a
  normal number is \<open>-1022\<close> (below it the spacing stays \<open>2^-1074\<close>), and a result of
  \<open>2^1024\<close> or more overflows.
\<close>

definition binary64_div :: "int \<Rightarrow> int \<Rightarrow> py_error + rat" where
  "binary64_div a b =
     (let q = of_int a / of_int b;
          p = max (binade a b) (- 1022) - 52;
          r = of_int (round_half_even (q / pow2 p)) * pow2 p
      in if pow2 1024 \<le> r then Inl OverflowError else Inr r)"

definition true_divide :: "int \<Rightarrow> int \<Rightarrow> py_error + rat" where
  "true_divide a b =
     (if b = 0 then Inl ZeroDivisionError
      else if a = 0 then Inr 0
      else case binary64_div \<bar>a\<bar> \<bar>b\<bar> of
             Inl e \<Rightarrow> Inl e
           | Inr r \<Rightarrow> Inr (of_int (sgn a * sgn b) * r))"

definition py_round :: "rat \<Rightarrow> int" where
  "py_round x = round_half_even x"

text \<open>
  The rounding that the specification names for \<open>averageUtilization\<close>, written from its
  words and not from the handler: the nearest integer, a half going away from zero. It is
  here to be compared with \<open>py_round\<close>.
\<close>

definition round_half_away :: "rat \<Rightarrow> int" where
  "round_half_away x = (if 0 \<le> x then \<lfloor>x + 1 / 2\<rfloor> else - \<lfloor>- x + 1 / 2\<rfloor>)"

section \<open>Utilization statistics\<close>

record stats =
  totalResources :: nat
  allocatedResources :: nat
  availableResources :: nat
  averageUtilization :: int
  overallocated :: nat
  totalProjects :: nat

text \<open>
  \<^verbatim>\<open>api_resource_stats\<close>: every \<^verbatim>\<open>Resource.query\<close> of the handler reads the same table
  \<open>resources\<close>, \<^verbatim>\<open>Project.query.count()\<close> the table \<open>projects\<close>. \<open>avg_util\<close> is the
  handler's \<^verbatim>\<open>avg_util\<close>: 0, overwritten when the list of resources is not empty.
\<close>

definition avg_util :: "resource list \<Rightarrow> py_error + int" where
  "avg_util resources =
     (if resources \<noteq> [] then
        case true_divide (sum_list (map (\<lambda>r. 100 - availability r) resources))
                         (int (length resources)) of
          Inl e \<Rightarrow> Inl e
        | Inr x \<Rightarrow> Inr (py_round x)
      else Inr 0)"

definition api_resource_stats :: "resource list \<Rightarrow> project list \<Rightarrow> py_error + stats response" where
  "api_resource_stats resources projects =
     (let total = length resources;
          allocated = length (filter (\<lambda>r. availability r < 100) resources);
          available = length (filter (\<lambda>r. availability r > 0) resources)
      in case avg_util resources of
           Inl e \<Rightarrow> Inl e
         | Inr avg \<Rightarrow>
             let overalloc = length (filter (\<lambda>r. availability r \<le> 0) resources)
             in Inr (jsonify_data
                  \<lparr>totalResources = total, allocatedResources = allocated,
                   availableResources = available, averageUtilization = avg,
                   overallocated = overalloc, totalProjects = length projects\<rparr>))"

section \<open>Authentication\<close>

text \<open>
  \<^verbatim>\<open>User.to_dict\<close>: the five entries of the dict display, in its order. The column
  \<^verbatim>\<open>password_hash\<close> is not read.
\<close>

definition User_to_dict :: "user \<Rightarrow> dict" where
  "User_to_dict u =
     [(''id'', JInt (user_id u)),
      (''name'', JStr (user_name u)),
      (''email'', JStr (email u)),
      (''position'', JStr (user_position u)),
      (''createdAt'', JDateTime (created_at u))]"

text \<open>
  A field of the request body is \<open>None\<close> when the key is absent (or the body is not a
  dict: \<^verbatim>\<open>request.get_json() or {}\<close>) and \<open>Some s\<close> for a JSON string. Python's truth
  value of \<^verbatim>\<open>data.get(k)\<close> is false for \<^verbatim>\<open>None\<close> and for the empty string.
\<close>

definition truthy :: "string option \<Rightarrow> bool" where
  "truthy x = (case x of None \<Rightarrow> False | Some s \<Rightarrow> s \<noteq> [])"

text \<open>\<^verbatim>\<open>User.query.filter_by(email=email).first()\<close> and \<^verbatim>\<open>User.query.get(uid)\<close>.\<close>

definition filter_by_email :: "user list \<Rightarrow> string \<Rightarrow> user option" where
  "filter_by_email users e = find (\<lambda>u. email u = e) users"

definition query_get :: "user list \<Rightarrow> int \<Rightarrow> user option" where
  "query_get users uid = find (\<lambda>u. user_id u = uid) users"

text \<open>The integer primary key given to an inserted row: one more than the largest in the table.\<close>

definition next_id :: "user list \<Rightarrow> int" where
  "next_id users = foldr max (map user_id users) 0 + 1"

text \<open>
  \<^verbatim>\<open>api_register\<close>. \<open>generate_password_hash\<close> is werkzeug's function (with the salt it draws)
  and \<open>utcnow\<close> the clock reading that the column default of \<^verbatim>\<open>created_at\<close> takes at the
  insert; both are parameters. The result is the response and the table after the commit.
\<close>

definition api_register ::
  "(string \<Rightarrow> string) \<Rightarrow> datetime \<Rightarrow>
   string option \<Rightarrow> string option \<Rightarrow> string option \<Rightarrow> string option \<Rightarrow>
   user list \<Rightarrow> dict response \<times> user list" where
  "api_register generate_password_hash utcnow name email_in password position_in users =
     (let position = (if truthy position_in then the position_in else ''Developer'')
      in if \<not> (truthy name \<and> truthy email_in \<and> truthy password) then
           (jsonify_failure ''Name, email and password are required'' 400, users)
         else if filter_by_email users (the email_in) \<noteq> None then
           (jsonify_failure ''Email already registered'' 400, users)
         else
           let u = \<lparr>user_id = next_id users, user_name = the name, email = the email_in,
                    password_hash = generate_password_hash (the password),
                    user_position = position, created_at = utcnow\<rparr>
           in (jsonify_data (User_to_dict u), users @ [u]))"

text \<open>
  The Flask session is a dict; the handlers use its key \<^verbatim>\<open>'user_id'\<close> only.
  \<open>check_password_hash\<close> is werkzeug's verification, a parameter: it returns a truth value
  or raises (it encodes the password first, which fails for a text that cannot be encoded).
  The handler calls it only when a row with the email exists, and does not catch what it
  raises. \<^verbatim>\<open>api_login\<close> returns the exception, or the response and the session after the
  request. The fields are JSON strings here; a password of another JSON type that passes the
  truth test is, for the verification, one more argument on which it raises.
\<close>

type_synonym session = "string \<rightharpoonup> int"

definition api_login ::
  "(string \<Rightarrow> string \<Rightarrow> py_error + bool) \<Rightarrow> string option \<Rightarrow> string option \<Rightarrow>
   user list \<Rightarrow> session \<Rightarrow> py_error + dict response \<times> session" where
  "api_login check_password_hash email_in password users sess =
     (if \<not> (truthy email_in \<and> truthy password) then
        Inr (jsonify_failure ''Email and password required'' 400, sess)
      else case filter_by_email users (the email_in) of
             None \<Rightarrow> Inr (jsonify_failure ''Invalid credentials'' 401, sess)
           | Some u \<Rightarrow>
               (case check_password_hash (password_hash u) (the password) of
                  Inl e \<Rightarrow> Inl e
                | Inr ok \<Rightarrow>
                    if \<not> ok then Inr (jsonify_failure ''Invalid credentials'' 401, sess)
                    else Inr (jsonify_data (User_to_dict u), sess(''user_id'' \<mapsto> user_id u))))"

text \<open>\<^verbatim>\<open>api_me\<close>: \<^verbatim>\<open>not uid\<close> holds for a missing key and for the id 0.\<close>

definition api_me :: "user list \<Rightarrow> session \<Rightarrow> dict response" where
  "api_me users sess =
     (case sess ''user_id'' of
        None \<Rightarrow> jsonify_failure ''Not authenticated'' 401
      | Some uid \<Rightarrow>
          if uid = 0 then jsonify_failure ''Not authenticated'' 401
          else case query_get users uid of
                 None \<Rightarrow> jsonify_failure ''User not found'' 404
               | Some u \<Rightarrow> jsonify_data (User_to_dict u))"

text \<open>\<^verbatim>\<open>api_logout\<close>: \<^verbatim>\<open>session.pop('user_id', None)\<close> removes the key if it is there.\<close>

definition api_logout :: "session \<Rightarrow> dict response \<times> session" where
  "api_logout sess = (jsonify_success, sess(''user_id'' := None))"

subsection \<open>Sequences of requests from one client\<close>

text \<open>
  The state a client's requests act on: the user table and the client's session. Each request
  carries the clock reading at which it is handled. The other endpoints read the project and
  resource tables only and change neither component. A request answers with a response, or
  with the exception that was raised; the exception of a login leaves the state as it was.
\<close>

record state =
  users :: "user list"
  session :: session

datatype request =
    Register datetime "string option" "string option" "string option" "string option"
  | Login "string option" "string option"
  | Me
  | Logout

fun handle ::
  "(string \<Rightarrow> string) \<Rightarrow> (string \<Rightarrow> string \<Rightarrow> py_error + bool) \<Rightarrow> request \<Rightarrow> state \<Rightarrow>
   (py_error + dict response) \<times> state" where
  "handle gen chk (Register now n e p pos) s =
     (case api_register gen now n e p pos (users s) of (r, us) \<Rightarrow> (Inr r, s\<lparr>users := us\<rparr>))"
| "handle gen chk (Login e p) s =
     (case api_login chk e p (users s) (session s) of
        Inl err \<Rightarrow> (Inl err, s)
      | Inr (r, se) \<Rightarrow> (Inr r, s\<lparr>session := se\<rparr>))"
| "handle gen chk Me s = (Inr (api_me (users s) (session s)), s)"
| "handle gen chk Logout s =
     (case api_logout (session s) of (r, se) \<Rightarrow> (Inr r, s\<lparr>session := se\<rparr>))"

fun run ::
  "(string \<Rightarrow> string) \<Rightarrow> (string \<Rightarrow> string \<Rightarrow> py_error + bool) \<Rightarrow> request list \<Rightarrow> state \<Rightarrow> state" where
  "run gen chk [] s = s"
| "run gen chk (q # qs) s = run gen chk qs (snd (handle gen chk q s))"

text \<open>A request is a new login when it is a login request and its response reports success.\<close>

fun is_login :: "request \<Rightarrow> bool" where
  "is_login (Login e p) = True"
| "is_login q = False"

definition succeeded :: "py_error + dict response \<Rightarrow> bool" where
  "succeeded x = (case x of Inl err \<Rightarrow> False | Inr r \<Rightarrow> success r)"

fun no_new_login ::
  "(string \<Rightarrow> string) \<Rightarrow> (string \<Rightarrow> string \<Rightarrow> py_error + bool) \<Rightarrow> request list \<Rightarrow> state \<Rightarrow> bool" where
  "no_new_login gen chk [] s = True"
| "no_new_login gen chk (q # qs) s =
     (\<not> (is_login q \<and> succeeded (fst (handle gen chk q s))) \<and>
      no_new_login gen chk qs (snd (handle gen chk q s)))"

section \<open>Projects\<close>

definition Project_to_dict :: "project \<Rightarrow> dict" where
  "Project_to_dict p =
     [(''id'', JInt (project_id p)),
      (''name'', JStr (project_name p)),
      (''manager'', case manager p of None \<Rightarrow> JNull | Some m \<Rightarrow> JStr m),
      (''startDate'', case start_date p of None \<Rightarrow> JNull | Some d \<Rightarrow> JDate d),
      (''endDate'', case end_date p of None \<Rightarrow> JNull | Some d \<Rightarrow> JDate d),
      (''status'', JStr (status_p p)),
      (''updatedAt'', JDateTime (updated_at p))]"

text \<open>
  \<^verbatim>\<open>Project.query.order_by(Project.updated_at.desc()).all()\<close>. SQL leaves the order of rows
  with equal keys open; the model sorts by insertion and keeps such rows in table order.
\<close>

fun insort_desc :: "project \<Rightarrow> project list \<Rightarrow> project list" where
  "insort_desc p [] = [p]"
| "insort_desc p (q # qs) =
     (if updated_at p < updated_at q then q # insort_desc p qs else p # q # qs)"

definition order_by_updated_at_desc :: "project list \<Rightarrow> project list" where
  "order_by_updated_at_desc ps = foldr insort_desc ps []"

definition api_get_projects :: "project list \<Rightarrow> dict list response" where
  "api_get_projects projects =
     (let ps = order_by_updated_at_desc projects;
          d = map Project_to_dict ps
      in jsonify_data d)"

section \<open>Fixtures\<close>

text \<open>A resource row with a given availability, for the worked examples below.\<close>

definition resource_of :: "int \<Rightarrow> resource" where
  "resource_of a =
     \<lparr>resource_id = 1, resource_name = ''Akinleye Tolu'', resource_position = ''Senior Developer'',
      availability = a, current_project = None\<rparr>"

text \<open>
  A stand-in for werkzeug's pair of functions, and the user row that \<^verbatim>\<open>init_db\<close> seeds
  (hashed with the stand-in). The stand-in verification raises on a password holding the byte
  \<open>0xFF\<close>, which no encoded text holds: it takes the place of a password that cannot be
  encoded, such as the JSON string of one lone surrogate.
\<close>

definition toy_hash :: "string \<Rightarrow> string" where
  "toy_hash pw = ''pbkdf2:sha256$'' @ pw"

definition toy_check :: "string \<Rightarrow> string \<Rightarrow> py_error + bool" where
  "toy_check h pw =
     (if CHR 0xFF \<in> set pw then Inl UnicodeEncodeError else Inr (h = toy_hash pw))"

definition seed_project :: "int \<Rightarrow> datetime \<Rightarrow> project" where
  "seed_project i t =
     \<lparr>project_id = i, project_name = ''CRM System'', manager = Some ''Oluleye Philip'',
      start_date = Some 19367, end_date = None, status_p = ''completed'', updated_at = t\<rparr>"

definition seed_user :: user where
  "seed_user =
     \<lparr>user_id = 1, user_name = ''Babafemi Oyindamola'', email = ''john@example.com'',
      password_hash = toy_hash ''password'', user_position = ''Project Manager'',
      created_at = 0\<rparr>"

section \<open>Properties of true division and rounding\<close>

subsection \<open>Powers of two and the binary exponent\<close>

lemma pow2_power_int: "pow2 e = power_int 2 e"
proof (cases "0 \<le> e")
  case True
  then show ?thesis by (simp add: pow2_def power_int_def)
next
  case False
  then show ?thesis by (simp add: pow2_def power_int_def power_one_over)
qed

lemma pow2_pos: "0 < pow2 e"
  by (simp add: pow2_power_int)

lemma pow2_add: "pow2 (a + b) = pow2 a * pow2 b"
  by (simp add: pow2_power_int power_int_add)

lemma pow2_mono: "a \<le> b \<Longrightarrow> pow2 a \<le> pow2 b"
  by (simp add: pow2_power_int power_int_increasing)

lemma pow2_nat: "pow2 (int n) = 2 ^ n"
  by (simp add: pow2_def)

lemma pow2_minus: "pow2 (- a) = 1 / pow2 a"
  by (simp only: pow2_power_int power_int_minus inverse_eq_divide)

lemma bitlen_pow2_bounds:
  assumes "0 < a"
  shows "pow2 (bitlen a - 1) \<le> of_int a" and "of_int a < pow2 (bitlen a)"
proof -
  from bitlen_bounds [OF assms]
  have l: "2 ^ nat (bitlen a - 1) \<le> a" and u: "a < 2 ^ nat (bitlen a)" by simp_all
  have pos: "1 \<le> bitlen a" using assms bitlen_eq_zero_iff [of a] bitlen_nonneg [of a] by linarith
  have "(of_int (2 ^ nat (bitlen a - 1)) :: rat) \<le> of_int a" using l by (simp only: of_int_le_iff)
  then show "pow2 (bitlen a - 1) \<le> of_int a" using pos by (simp add: pow2_def)
  have "(of_int a :: rat) < of_int (2 ^ nat (bitlen a))" using u by (simp only: of_int_less_iff)
  then show "of_int a < pow2 (bitlen a)" using pos by (simp add: pow2_def)
qed

lemma binade_bounds:
  assumes a: "0 < a" and b: "0 < b"
  shows "pow2 (binade a b) \<le> of_int a / of_int b"
    and "of_int a / of_int b < pow2 (binade a b + 1)"
proof -
  let ?d = "bitlen a - bitlen b"
  have b': "(0::rat) < of_int b" using b by simp
  note A = bitlen_pow2_bounds [OF a] and B = bitlen_pow2_bounds [OF b]
  have both: "pow2 (binade a b) \<le> of_int a / of_int b \<and> of_int a / of_int b < pow2 (binade a b + 1)"
  proof (cases "of_int b * pow2 ?d \<le> (of_int a :: rat)")
    case True
    then have e: "binade a b = ?d" by (simp add: binade_def Let_def)
    have lo: "pow2 ?d \<le> of_int a / of_int b"
      using True b' by (simp add: pos_le_divide_eq mult.commute)
    have "pow2 (bitlen a) = pow2 (?d + 1) * pow2 (bitlen b - 1)"
      by (simp add: pow2_add [symmetric])
    also have "\<dots> \<le> pow2 (?d + 1) * of_int b"
      using B(1) pow2_pos [of "?d + 1"] by (simp add: mult_left_mono)
    finally have "of_int a < pow2 (?d + 1) * of_int b" using A(2) by linarith
    then have "of_int a / of_int b < pow2 (?d + 1)" using b' by (simp add: pos_divide_less_eq)
    with lo e show ?thesis by simp
  next
    case False
    then have e: "binade a b = ?d - 1" by (simp add: binade_def Let_def)
    from False have "of_int a < pow2 ?d * of_int b" by (simp add: mult.commute)
    then have up: "of_int a / of_int b < pow2 ?d" using b' by (simp add: pos_divide_less_eq)
    have "pow2 (?d - 1) * of_int b \<le> pow2 (?d - 1) * pow2 (bitlen b)"
      using B(2) pow2_pos [of "?d - 1"] by (simp add: mult_left_mono)
    also have "\<dots> = pow2 (bitlen a - 1)" by (simp add: pow2_add [symmetric])
    finally have "pow2 (?d - 1) * of_int b \<le> of_int a" using A(1) by linarith
    then have "pow2 (?d - 1) \<le> of_int a / of_int b" using b' by (simp add: pos_le_divide_eq)
    with up e show ?thesis by simp
  qed
  then show "pow2 (binade a b) \<le> of_int a / of_int b"
    and "of_int a / of_int b < pow2 (binade a b + 1)" by simp_all
qed

subsection \<open>Rounding to the nearest integer, halves to even\<close>

lemma round_half_even_error: "\<bar>of_int (round_half_even x) - x\<bar> \<le> 1 / 2"
proof -
  have "of_int \<lfloor>x\<rfloor> \<le> x" "x < of_int \<lfloor>x\<rfloor> + 1" by linarith+
  then show ?thesis by (auto simp: round_half_even_def Let_def)
qed

lemma round_half_even_unique:
  assumes "\<bar>of_int z - x\<bar> < 1 / 2"
  shows "round_half_even x = z"
proof -
  have "\<bar>of_int (round_half_even x) - x\<bar> \<le> 1 / 2" by (rule round_half_even_error)
  with assms have "\<bar>(of_int (round_half_even x) :: rat) - of_int z\<bar> < 1" by linarith
  then have "\<bar>(of_int (round_half_even x - z) :: rat)\<bar> < 1" by simp
  then have "\<bar>round_half_even x - z\<bar> < 1" 
    by (metis of_int_abs of_int_less_1_iff)
  then show ?thesis by linarith
qed

lemma round_half_even_tie:
  assumes "\<bar>of_int (round_half_even x) - x\<bar> = 1 / 2"
  shows "even (round_half_even x)"
proof -
  have "of_int \<lfloor>x\<rfloor> \<le> x" "x < of_int \<lfloor>x\<rfloor> + 1" by linarith+
  then show ?thesis using assms
    by (auto simp: round_half_even_def Let_def split: if_splits)
qed

lemma round_half_even_of_int: "round_half_even (of_int z) = z"
  by (rule round_half_even_unique) simp

lemma round_half_even_minus: "round_half_even (- x) = - round_half_even x"
proof (cases "\<bar>of_int (round_half_even x) - x\<bar> < 1 / 2")
  case True
  have "of_int (- round_half_even x) - (- x) = - (of_int (round_half_even x) - x)" by simp
  then have "\<bar>of_int (- round_half_even x) - (- x)\<bar> = \<bar>of_int (round_half_even x) - x\<bar>"
    by (simp only: abs_minus_cancel)
  with True have "\<bar>of_int (- round_half_even x) - (- x)\<bar> < 1 / 2" by simp
  then show ?thesis by (rule round_half_even_unique)
next
  case False
  with round_half_even_error [of x] have t: "\<bar>of_int (round_half_even x) - x\<bar> = 1 / 2" by linarith
  then have ez: "even (round_half_even x)" by (rule round_half_even_tie)
  let ?z = "round_half_even x" and ?w = "round_half_even (- x)"
  have w: "\<bar>of_int ?w + x\<bar> \<le> 1 / 2" using round_half_even_error [of "- x"] by simp
  show ?thesis
  proof (cases "\<bar>of_int ?w + x\<bar> < 1 / 2")
    case True
    have "of_int (- ?w) - x = - (of_int ?w + x)" by simp
    then have "\<bar>of_int (- ?w) - x\<bar> = \<bar>of_int ?w + x\<bar>"
      by (simp only: abs_minus_cancel)
    with True have "\<bar>of_int (- ?w) - x\<bar> < 1 / 2" by simp
    then have "?z = - ?w" by (rule round_half_even_unique)
    then show ?thesis by simp
  next
    case False
    with w have tw: "\<bar>of_int ?w - (- x)\<bar> = 1 / 2" by simp
    then have ew: "even ?w" by (rule round_half_even_tie)
    have "\<bar>(of_int ?w :: rat) + of_int ?z\<bar> \<le> 1" using t w by linarith
    then have "\<bar>(of_int (?w + ?z) :: rat)\<bar> \<le> 1" by simp
    then have "\<bar>?w + ?z\<bar> \<le> 1" by (metis of_int_abs of_int_le_1_iff)
    moreover have "even (?w + ?z)" using ew ez by simp
    ultimately have "?w + ?z = 0" by presburger
    then show ?thesis by simp
  qed
qed

text \<open>A value close enough to a quotient that is not halfway rounds like the quotient.\<close>

lemma round_half_even_stable:
  fixes s n :: int and x :: rat
  assumes n: "0 < n"
    and nt: "\<bar>of_int (round_half_even (of_int s / of_int n)) - of_int s / of_int n\<bar> \<noteq> (1 / 2 :: rat)"
    and cl: "\<bar>x - of_int s / of_int n\<bar> < 1 / (2 * of_int n)"
  shows "round_half_even x = round_half_even (of_int s / of_int n)"
proof -
  let ?q = "of_int s / of_int n :: rat" and ?z = "round_half_even (of_int s / of_int n)"
  have n': "(0::rat) < of_int n" using n by simp
  have "\<bar>of_int ?z - ?q\<bar> < 1 / 2" using round_half_even_error [of ?q] nt by linarith
  then have "\<bar>of_int ?z - ?q\<bar> * of_int n < 1 / 2 * of_int n"
    using n' by (rule mult_strict_right_mono)
  moreover have "\<bar>of_int ?z - ?q\<bar> * of_int n = \<bar>(of_int (?z * n - s) :: rat)\<bar>"
  proof -
    have "\<bar>of_int ?z - ?q\<bar> * of_int n = \<bar>(of_int ?z - ?q) * of_int n\<bar>"
      using n' by (simp add: abs_mult)
    also have "(of_int ?z - ?q) * of_int n = (of_int (?z * n - s) :: rat)"
      using n' by (simp add: field_simps)
    finally show ?thesis .
  qed
  ultimately have "\<bar>(of_int (?z * n - s) :: rat)\<bar> < 1 / 2 * of_int n" by (simp only:)
  then have "2 * \<bar>(of_int (?z * n - s) :: rat)\<bar> < of_int n" by simp
  then have "(of_int (2 * \<bar>?z * n - s\<bar>) :: rat) < of_int n" by simp
  then have "2 * \<bar>?z * n - s\<bar> < n" by (simp only: of_int_less_iff)
  then have "2 * \<bar>?z * n - s\<bar> \<le> n - 1" by linarith
  then have "(of_int (2 * \<bar>?z * n - s\<bar>) :: rat) \<le> of_int (n - 1)" by (simp only: of_int_le_iff)
  then have b: "2 * \<bar>(of_int (?z * n - s) :: rat)\<bar> \<le> of_int n - 1" by simp
  have "\<bar>of_int ?z - ?q\<bar> = \<bar>(of_int (?z * n - s) :: rat)\<bar> / of_int n"
  proof -
    have "of_int ?z - ?q = (of_int (?z * n - s) :: rat) / of_int n"
      using n' by (simp add: field_simps)
    then show ?thesis using n' by (simp add: abs_divide del: of_int_diff of_int_mult)
  qed
  also have "\<dots> \<le> ((of_int n - 1) / 2) / of_int n"
    using b n' by (intro divide_right_mono) auto
  also have "\<dots> = 1 / 2 - 1 / (2 * of_int n)" using n' by (simp add: field_simps)
  finally have "\<bar>of_int ?z - ?q\<bar> \<le> 1 / 2 - 1 / (2 * of_int n)" .
  with cl have "\<bar>of_int ?z - x\<bar> < 1 / 2" by linarith
  then show ?thesis by (rule round_half_even_unique)
qed

subsection \<open>The float quotient rounds like the exact quotient\<close>

text \<open>
  For a dividend below \<open>2^52\<close> in absolute value, rounding the quotient to binary64 first does
  not change the integer that \<^verbatim>\<open>round\<close> returns: a quotient halfway between two integers is
  a float, and any other quotient \<open>s / n\<close> is at least \<open>1 / (2 n)\<close> away from halfway, more than
  the float's error.
\<close>

lemma binary64_div_value:
  "binary64_div a b =
     (if pow2 1024 \<le> of_int (round_half_even (of_int a / of_int b / pow2 (max (binade a b) (- 1022) - 52)))
                       * pow2 (max (binade a b) (- 1022) - 52)
      then Inl OverflowError
      else Inr (of_int (round_half_even (of_int a / of_int b / pow2 (max (binade a b) (- 1022) - 52)))
                       * pow2 (max (binade a b) (- 1022) - 52)))"
  by (simp add: binary64_div_def Let_def)

lemma scaled_round_error:
  assumes "0 < P"
  shows "\<bar>of_int (round_half_even (q / P)) * P - q\<bar> \<le> P / 2"
proof -
  have "of_int (round_half_even (q / P)) * P - q = (of_int (round_half_even (q / P)) - q / P) * P"
    using assms by (simp add: field_simps)
  then have "\<bar>of_int (round_half_even (q / P)) * P - q\<bar>
      = \<bar>of_int (round_half_even (q / P)) - q / P\<bar> * P"
    using assms by (simp add: abs_mult)
  also have "\<dots> \<le> 1 / 2 * P"
    using round_half_even_error [of "q / P"] assms by (intro mult_right_mono) simp_all
  finally show ?thesis by simp
qed

lemma pow2_52: "pow2 52 = 2 ^ 52"
  using pow2_nat [of 52] by simp

lemma binary64_div_rounds:
  assumes a: "0 < a" and a52: "a < 2 ^ 52" and b: "0 < b"
  shows "\<exists>r. binary64_div a b = Inr r \<and>
             round_half_even r = round_half_even (of_int a / of_int b)"
proof -
  define q :: rat where "q = of_int a / of_int b"
  define e where "e = binade a b"
  define p where "p = max e (- 1022) - 52"
  define P where "P = pow2 p"
  define r where "r = of_int (round_half_even (q / P)) * P"
  have b': "(0::rat) < of_int b" and a': "(0::rat) < of_int a" using a b by simp_all
  have "1 \<le> b" using b by simp
  then have "(of_int 1 :: rat) \<le> of_int b" by (simp only: of_int_le_iff)
  then have b1: "(1::rat) \<le> of_int b" by simp
  have qpos: "0 < q" using a' b' by (simp add: q_def)
  have "q \<le> of_int a" using a' b1 by (simp add: q_def divide_le_eq mult_le_cancel_left1)
  moreover have "(of_int a :: rat) < of_int (2 ^ 52)" using a52 by (simp only: of_int_less_iff)
  ultimately have q52: "q < 2 ^ 52" by simp
  have elo: "pow2 e \<le> q" and ehi: "q < pow2 (e + 1)"
    using binade_bounds [OF a b] by (simp_all add: e_def q_def)
  have e51: "e \<le> 51"
  proof (rule ccontr)
    assume "\<not> e \<le> 51"
    then have "pow2 52 \<le> pow2 e" by (intro pow2_mono) simp
    with elo q52 show False by (simp add: pow2_52)
  qed
  have p1: "p \<le> - 1" using e51 by (simp add: p_def)
  have Ppos: "0 < P" by (simp add: P_def pow2_pos)
  have Phalf: "P \<le> 1 / 2"
  proof -
    have "pow2 p \<le> pow2 (- 1)" using p1 by (rule pow2_mono)
    then show ?thesis by (simp add: P_def pow2_def)
  qed
  have err: "\<bar>r - q\<bar> \<le> P / 2" unfolding r_def using Ppos by (rule scaled_round_error)
  have "r < 2 ^ 52 + 1" using err q52 Phalf by linarith
  moreover have "(2::rat) ^ 52 + 1 \<le> pow2 1024" by (simp add: pow2_def)
  ultimately have "\<not> pow2 1024 \<le> r" by linarith
  then have val: "binary64_div a b = Inr r"
    unfolding binary64_div_value r_def P_def p_def e_def q_def by simp
  have "round_half_even r = round_half_even q"
  proof (cases "\<bar>of_int (round_half_even q) - q\<bar> = 1 / 2")
    case True
    then obtain t :: int where t: "q = of_int t / 2"
    proof -
      from True have "q = of_int (round_half_even q) - 1 / 2 \<or> q = of_int (round_half_even q) + 1 / 2"
        by linarith
      then show ?thesis
      proof
        assume "q = of_int (round_half_even q) - 1 / 2"
        then have "q = of_int (2 * round_half_even q - 1) / 2" by simp
        then show ?thesis by (rule that)
      next
        assume "q = of_int (round_half_even q) + 1 / 2"
        then have "q = of_int (2 * round_half_even q + 1) / 2" by simp
        then show ?thesis by (rule that)
      qed
    qed
    have np: "0 \<le> - p - 1" using p1 by simp
    have "1 / (2 * P) = pow2 (- 1) * pow2 (- p)"
      by (simp add: P_def pow2_minus [of p]) (simp add: pow2_def)
    also have "\<dots> = pow2 (- p - 1)"
    proof -
      have "- 1 + - p = - p - 1" by simp
      then show ?thesis by (simp only: pow2_add [symmetric])
    qed
    also have "\<dots> = 2 ^ nat (- p - 1)" using np by (simp add: pow2_def)
    finally have "1 / (2 * P) = of_int (2 ^ nat (- p - 1))" by simp
    moreover have "q / P = of_int t * (1 / (2 * P))" using Ppos by (simp add: t)
    ultimately have "q / P = of_int (t * 2 ^ nat (- p - 1))" by simp
    then have "of_int (round_half_even (q / P)) = q / P"
      by (simp only: round_half_even_of_int)
    then have "r = q" using Ppos by (simp add: r_def)
    then show ?thesis by simp
  next
    case nt: False
    show ?thesis
    proof (cases "- 1022 \<le> e")
      case True
      then have "p = e - 53 + 1" by (simp add: p_def)
      then have "P = pow2 (e - 53) * pow2 1" unfolding P_def by (simp only: pow2_add)
      then have "P / 2 = pow2 (e - 53)" by (simp add: pow2_def)
      also have "\<dots> = pow2 e * pow2 (- 53)" by (simp add: pow2_add [symmetric])
      also have "\<dots> \<le> q * pow2 (- 53)" using elo pow2_pos [of "- 53"] by (simp add: mult_right_mono)
      also have "\<dots> = of_int a / (of_int b * 2 ^ 53)" by (simp add: q_def pow2_def)
      also have "\<dots> < 1 / (2 * of_int b)"
      proof -
        have "(of_int (2 * a) :: rat) < of_int (2 ^ 53)" using a52 by (simp only: of_int_less_iff) simp
        then have "(of_int a :: rat) * 2 < 2 ^ 53" by simp
        then show ?thesis using b' by (simp add: field_simps)
      qed
      finally have "P / 2 < 1 / (2 * of_int b)" .
      with err have "\<bar>r - of_int a / of_int b\<bar> < 1 / (2 * of_int b)" by (simp add: q_def)
      moreover have "\<bar>of_int (round_half_even (of_int a / of_int b)) - of_int a / of_int b\<bar> \<noteq> (1 / 2 :: rat)"
        using nt by (simp add: q_def)
      ultimately have "round_half_even r = round_half_even (of_int a / of_int b)"
        using round_half_even_stable [OF b] by blast
      then show ?thesis by (simp add: q_def)
    next
      case False
      then have "e + 1 \<le> - 2" by simp
      then have "pow2 (e + 1) \<le> pow2 (- 2)" by (rule pow2_mono)
      then have q4: "q < 1 / 4" using ehi by (simp add: pow2_def)
      have r1: "r < 1 / 2" using err q4 Phalf by linarith
      have r2: "- (1 / 2) < r" using err qpos Phalf by linarith
      have "\<bar>of_int 0 - q\<bar> < 1 / 2" using q4 qpos by simp
      moreover have "\<bar>of_int 0 - r\<bar> < 1 / 2" using r1 r2 by (simp add: abs_less_iff)
      ultimately have "\<bar>of_int 0 - q\<bar> < 1 / 2" and "\<bar>of_int 0 - r\<bar> < 1 / 2"
        by simp_all
      then have "round_half_even q = 0" and "round_half_even r = 0"
        by (simp_all only: round_half_even_unique)
      then show ?thesis by simp
    qed
  qed
  with val show ?thesis by (simp add: q_def)
qed

lemma true_divide_rounds:
  assumes n: "0 < n" and s: "\<bar>s\<bar> < 2 ^ 52"
  shows "\<exists>x. true_divide s n = Inr x \<and>
             round_half_even x = round_half_even (of_int s / of_int n)"
proof (cases "s = 0")
  case True
  have "round_half_even 0 = 0" using round_half_even_of_int [of 0] by simp
  then show ?thesis using True n by (simp add: true_divide_def)
next
  case False
  then have "0 < \<bar>s\<bar>" by simp
  from binary64_div_rounds [OF this s n] obtain r where
    r: "binary64_div \<bar>s\<bar> n = Inr r"
       "round_half_even r = round_half_even (of_int \<bar>s\<bar> / of_int n)" by blast
  have td: "true_divide s n = Inr (of_int (sgn s) * r)"
    using False n r(1) by (simp add: true_divide_def)
  show ?thesis
  proof (cases "0 < s")
    case True
    then show ?thesis using td r(2) by simp
  next
    case neg: False
    with False have sn: "s < 0" by simp
    then have "of_int (sgn s) * r = - r" by simp
    moreover have "round_half_even (- r) = round_half_even (of_int s / of_int n)"
    proof -
      have "round_half_even (- r) = - round_half_even (of_int \<bar>s\<bar> / of_int n)"
        by (simp only: round_half_even_minus r(2))
      also have "\<dots> = round_half_even (- (of_int \<bar>s\<bar> / of_int n))"
        by (simp only: round_half_even_minus)
      also have "- (of_int \<bar>s\<bar> / of_int n) = (of_int s / of_int n :: rat)" using sn by simp
      finally show ?thesis .
    qed
    ultimately show ?thesis using td by simp
  qed
qed

section \<open>Properties of the utilization statistics\<close>

text \<open>Evaluating floors of rational numerals, for the worked examples.\<close>

lemma floor_rat_numeral: "\<lfloor>(numeral a / numeral b :: rat)\<rfloor> = numeral a div numeral b"
  using floor_divide_of_int_eq [of "numeral a" "numeral b", where ?'a = rat] by simp

lemma floor_rat_neg_numeral:
  "\<lfloor>- (numeral a / numeral b :: rat)\<rfloor> = - numeral a div numeral b"
  using floor_divide_of_int_eq [of "- numeral a" "numeral b", where ?'a = rat] by simp

lemma floor_rat_one_numeral: "\<lfloor>(1 / numeral b :: rat)\<rfloor> = 1 div numeral b"
  using floor_divide_of_int_eq [of 1 "numeral b", where ?'a = rat] by simp

lemma floor_rat_neg_one_numeral: "\<lfloor>- (1 / numeral b :: rat)\<rfloor> = - 1 div numeral b"
  using floor_divide_of_int_eq [of "- 1" "numeral b", where ?'a = rat] by simp

lemmas float_eval = true_divide_def binary64_div_def binade_def pow2_def
  round_half_even_def py_round_def compute_bitlen Let_def
  floor_rat_numeral floor_rat_neg_numeral floor_rat_one_numeral floor_rat_neg_one_numeral

lemmas stats_eval = api_resource_stats_def avg_util_def resource_of_def jsonify_data_def

lemma binary64_div_not_zerodiv: "binary64_div a b \<noteq> Inl ZeroDivisionError"
  by (simp add: binary64_div_def Let_def)

lemma true_divide_zerodiv: "true_divide a b = Inl ZeroDivisionError \<longleftrightarrow> b = 0"
  using binary64_div_not_zerodiv [of "\<bar>a\<bar>" "\<bar>b\<bar>"]
  by (auto simp: true_divide_def split: sum.splits)

lemma avg_util_not_zerodiv: "avg_util rs \<noteq> Inl ZeroDivisionError"
  by (auto simp: avg_util_def true_divide_zerodiv split: sum.splits)

lemma api_resource_stats_Inr:
  assumes "api_resource_stats rs ps = Inr resp"
  shows "\<exists>avg. avg_util rs = Inr avg \<and>
     resp = jsonify_data
       \<lparr>totalResources = length rs,
        allocatedResources = length (filter (\<lambda>r. availability r < 100) rs),
        availableResources = length (filter (\<lambda>r. availability r > 0) rs),
        averageUtilization = avg,
        overallocated = length (filter (\<lambda>r. availability r \<le> 0) rs),
        totalProjects = length ps\<rparr>"
  using assms by (auto simp: api_resource_stats_def Let_def split: sum.splits)

lemma api_resource_stats_data:
  assumes "api_resource_stats rs ps = Inr resp"
  shows "\<exists>avg. data resp = Some
       \<lparr>totalResources = length rs,
        allocatedResources = length (filter (\<lambda>r. availability r < 100) rs),
        availableResources = length (filter (\<lambda>r. availability r > 0) rs),
        averageUtilization = avg,
        overallocated = length (filter (\<lambda>r. availability r \<le> 0) rs),
        totalProjects = length ps\<rparr>"
  using api_resource_stats_Inr [OF assms] by (auto simp: jsonify_data_def)

lemma partition_by_availability:
  "length (filter (\<lambda>r. availability r \<le> 0) rs)
   + length (filter (\<lambda>r. 1 \<le> availability r \<and> availability r \<le> 99) rs)
   + length (filter (\<lambda>r. availability r = 100) rs)
   + length (filter (\<lambda>r. 100 < availability r) rs) = length rs"
  by (induction rs) auto

lemma no_excess_iff:
  "length (filter (\<lambda>r. 100 < availability r) rs) = 0 \<longleftrightarrow> (\<forall>r\<in>set rs. availability r \<le> 100)"
  by (induction rs) auto

lemma count_availability:
  "length (filter (\<lambda>r. P (availability r)) rs) = length (filter P (map availability rs))"
  by (induction rs) auto

subsection \<open>C1: the three availability classes and the total\<close>

text \<open>
  C1 as stated fails: a resource with availability 150 is counted by \<open>totalResources\<close> and
  by none of \<open>overallocated\<close>, the count in 1..99 and the count at 100. For the table holding
  that one row the handler returns \<open>overallocated = 0\<close> and \<open>totalResources = 1\<close>.
\<close>

theorem stats_partition_counterexample:
  "let rs = [resource_of 150] in
     api_resource_stats rs [] = Inr (jsonify_data
       \<lparr>totalResources = 1, allocatedResources = 0, availableResources = 1,
        averageUtilization = - 50, overallocated = 0, totalProjects = 0\<rparr>)
   \<and> 0 + length (filter (\<lambda>r. 1 \<le> availability r \<and> availability r \<le> 99) rs)
       + length (filter (\<lambda>r. availability r = 100) rs) \<noteq> (1::nat)"
  by (simp add: stats_eval float_eval)

text \<open>
  C1 (amended): for every collection of Resource records, the returned \<open>overallocated\<close> plus
  the count with availability in 1..99 plus the count with availability 100 plus the count
  with availability above 100 equals \<open>totalResources\<close>; the first three alone add up to
  \<open>totalResources\<close> exactly when no record has an availability above 100.
\<close>

theorem stats_partition_with_excess:
  assumes "api_resource_stats rs ps = Inr resp"
  shows "\<exists>st. data resp = Some st \<and>
     overallocated st
       + length (filter (\<lambda>r. 1 \<le> availability r \<and> availability r \<le> 99) rs)
       + length (filter (\<lambda>r. availability r = 100) rs)
       + length (filter (\<lambda>r. 100 < availability r) rs) = totalResources st \<and>
     ((overallocated st
       + length (filter (\<lambda>r. 1 \<le> availability r \<and> availability r \<le> 99) rs)
       + length (filter (\<lambda>r. availability r = 100) rs) = totalResources st)
      \<longleftrightarrow> (\<forall>r\<in>set rs. availability r \<le> 100))"
proof -
  from api_resource_stats_data [OF assms] obtain avg where
    d: "data resp = Some
       \<lparr>totalResources = length rs,
        allocatedResources = length (filter (\<lambda>r. availability r < 100) rs),
        availableResources = length (filter (\<lambda>r. availability r > 0) rs),
        averageUtilization = avg,
        overallocated = length (filter (\<lambda>r. availability r \<le> 0) rs),
        totalProjects = length ps\<rparr>" by blast
  have four: "length (filter (\<lambda>r. availability r \<le> 0) rs)
       + length (filter (\<lambda>r. 1 \<le> availability r \<and> availability r \<le> 99) rs)
       + length (filter (\<lambda>r. availability r = 100) rs)
       + length (filter (\<lambda>r. 100 < availability r) rs) = length rs"
    by (rule partition_by_availability)
  then have "(length (filter (\<lambda>r. availability r \<le> 0) rs)
       + length (filter (\<lambda>r. 1 \<le> availability r \<and> availability r \<le> 99) rs)
       + length (filter (\<lambda>r. availability r = 100) rs) = length rs)
      \<longleftrightarrow> length (filter (\<lambda>r. 100 < availability r) rs) = 0"
    by arith
  then have three: "(length (filter (\<lambda>r. availability r \<le> 0) rs)
       + length (filter (\<lambda>r. 1 \<le> availability r \<and> availability r \<le> 99) rs)
       + length (filter (\<lambda>r. availability r = 100) rs) = length rs)
      \<longleftrightarrow> (\<forall>r\<in>set rs. availability r \<le> 100)"
    by (simp only: no_excess_iff)
  show ?thesis
    unfolding d using four three by simp
qed

theorem stats_partition_with_excess_witness:
  "api_resource_stats [resource_of 0, resource_of 20, resource_of 100, resource_of 150] [] =
     Inr (jsonify_data
       \<lparr>totalResources = 4, allocatedResources = 2, availableResources = 3,
        averageUtilization = 32, overallocated = 1, totalProjects = 0\<rparr>)
   \<and> (\<exists>st. data (jsonify_data
       \<lparr>totalResources = 4, allocatedResources = 2, availableResources = 3,
        averageUtilization = 32, overallocated = 1, totalProjects = 0\<rparr>) = Some st \<and>
     overallocated st
       + length (filter (\<lambda>r. 1 \<le> availability r \<and> availability r \<le> 99)
           [resource_of 0, resource_of 20, resource_of 100, resource_of 150])
       + length (filter (\<lambda>r. availability r = 100)
           [resource_of 0, resource_of 20, resource_of 100, resource_of 150])
       + length (filter (\<lambda>r. 100 < availability r)
           [resource_of 0, resource_of 20, resource_of 100, resource_of 150]) = totalResources st \<and>
     ((overallocated st
       + length (filter (\<lambda>r. 1 \<le> availability r \<and> availability r \<le> 99)
           [resource_of 0, resource_of 20, resource_of 100, resource_of 150])
       + length (filter (\<lambda>r. availability r = 100)
           [resource_of 0, resource_of 20, resource_of 100, resource_of 150]) = totalResources st)
      \<longleftrightarrow> (\<forall>r\<in>set [resource_of 0, resource_of 20, resource_of 100, resource_of 150].
             availability r \<le> 100)))"
proof -
  have h: "api_resource_stats [resource_of 0, resource_of 20, resource_of 100, resource_of 150] [] =
     Inr (jsonify_data
       \<lparr>totalResources = 4, allocatedResources = 2, availableResources = 3,
        averageUtilization = 32, overallocated = 1, totalProjects = 0\<rparr>)"
    by (simp add: stats_eval float_eval)
  show ?thesis
    by (rule conjI [OF h stats_partition_with_excess [OF h]])
qed

subsection \<open>C2: the average utilization\<close>

text \<open>
  C2 as stated fails: \<^verbatim>\<open>round\<close> sends a half to the even neighbour, not away from zero. For
  the availabilities 99 and 100 the quotient is \<open>1 / 2\<close>; the handler returns 0, standard
  rounding gives 1.
\<close>

theorem average_utilization_counterexample:
  "api_resource_stats [resource_of 99, resource_of 100] [] = Inr (jsonify_data
       \<lparr>totalResources = 2, allocatedResources = 1, availableResources = 2,
        averageUtilization = 0, overallocated = 0, totalProjects = 0\<rparr>)
   \<and> round_half_away
        (of_int (sum_list (map (\<lambda>r. 100 - availability r) [resource_of 99, resource_of 100]))
         / of_int (int (length [resource_of 99, resource_of 100]))) = 1"
  by (simp add: stats_eval float_eval round_half_away_def)

lemma avg_util_exact:
  assumes "rs \<noteq> []" and "\<bar>sum_list (map (\<lambda>r. 100 - availability r) rs)\<bar> < 2 ^ 52"
  shows "avg_util rs = Inr (round_half_even
           (of_int (sum_list (map (\<lambda>r. 100 - availability r) rs)) / of_int (int (length rs))))"
proof -
  have "0 < int (length rs)" using assms(1) by simp
  from true_divide_rounds [OF this assms(2)] obtain x where
    "true_divide (sum_list (map (\<lambda>r. 100 - availability r) rs)) (int (length rs)) = Inr x"
    "round_half_even x = round_half_even
       (of_int (sum_list (map (\<lambda>r. 100 - availability r) rs)) / of_int (int (length rs)))"
    by blast
  then show ?thesis using assms(1) by (simp add: avg_util_def py_round_def)
qed

text \<open>
  Beyond the range of the theorem below the float matters: one resource whose utilization is
  \<open>2^53 + 1\<close> gets the average \<open>2^53\<close>.
\<close>

lemma average_utilization_large_example:
  "avg_util [resource_of (100 - 9007199254740993)] = Inr 9007199254740992"
  by (simp add: stats_eval float_eval)

text \<open>
  C2 (amended): for every non-empty collection of Resource records whose sum of
  \<open>100 - availability\<close> is below \<open>2^52\<close> in absolute value, the handler returns an
  \<open>averageUtilization\<close> that is Python's \<^verbatim>\<open>round\<close> of the exact quotient of that sum by
  \<open>totalResources\<close>: an integer at most one half away from the exact rational quotient, and
  the even one of the two when the quotient is exactly halfway.
\<close>

theorem average_utilization_round_half_even:
  assumes "rs \<noteq> []" and "\<bar>sum_list (map (\<lambda>r. 100 - availability r) rs)\<bar> < 2 ^ 52"
  shows "\<exists>st. api_resource_stats rs ps = Inr (jsonify_data st) \<and>
     averageUtilization st = py_round
       (of_int (sum_list (map (\<lambda>r. 100 - availability r) rs)) / of_int (int (length rs))) \<and>
     \<bar>of_int (averageUtilization st)
        - of_int (sum_list (map (\<lambda>r. 100 - availability r) rs)) / of_int (int (length rs))\<bar>
       \<le> (1 / 2 :: rat) \<and>
     (\<bar>of_int (averageUtilization st)
        - of_int (sum_list (map (\<lambda>r. 100 - availability r) rs)) / of_int (int (length rs))\<bar>
       = (1 / 2 :: rat) \<longrightarrow> even (averageUtilization st))"
proof -
  let ?q = "of_int (sum_list (map (\<lambda>r. 100 - availability r) rs)) / of_int (int (length rs)) :: rat"
  let ?st = "\<lparr>totalResources = length rs,
        allocatedResources = length (filter (\<lambda>r. availability r < 100) rs),
        availableResources = length (filter (\<lambda>r. availability r > 0) rs),
        averageUtilization = round_half_even ?q,
        overallocated = length (filter (\<lambda>r. availability r \<le> 0) rs),
        totalProjects = length ps\<rparr>"
  have "api_resource_stats rs ps = Inr (jsonify_data ?st)"
    by (simp add: api_resource_stats_def avg_util_exact [OF assms])
  moreover have "averageUtilization ?st = py_round ?q" by (simp add: py_round_def)
  moreover have "\<bar>of_int (averageUtilization ?st) - ?q\<bar> \<le> 1 / 2"
    using round_half_even_error [of ?q] by simp
  moreover have "\<bar>of_int (averageUtilization ?st) - ?q\<bar> = 1 / 2 \<longrightarrow> even (averageUtilization ?st)"
    using round_half_even_tie [of ?q] by simp
  ultimately show ?thesis by blast
qed

theorem average_utilization_round_half_even_witness:
  "[resource_of 99, resource_of 100] \<noteq> []
   \<and> \<bar>sum_list (map (\<lambda>r. 100 - availability r) [resource_of 99, resource_of 100])\<bar> < 2 ^ 52
   \<and> (\<exists>st. api_resource_stats [resource_of 99, resource_of 100] [] = Inr (jsonify_data st) \<and>
     averageUtilization st = py_round
       (of_int (sum_list (map (\<lambda>r. 100 - availability r) [resource_of 99, resource_of 100]))
         / of_int (int (length [resource_of 99, resource_of 100]))) \<and>
     \<bar>of_int (averageUtilization st)
        - of_int (sum_list (map (\<lambda>r. 100 - availability r) [resource_of 99, resource_of 100]))
          / of_int (int (length [resource_of 99, resource_of 100]))\<bar>
       \<le> (1 / 2 :: rat) \<and>
     (\<bar>of_int (averageUtilization st)
        - of_int (sum_list (map (\<lambda>r. 100 - availability r) [resource_of 99, resource_of 100]))
          / of_int (int (length [resource_of 99, resource_of 100]))\<bar>
       = (1 / 2 :: rat) \<longrightarrow> even (averageUtilization st)))"
proof -
  have h1: "[resource_of 99, resource_of 100] \<noteq> []" by simp
  have h2: "\<bar>sum_list (map (\<lambda>r. 100 - availability r) [resource_of 99, resource_of 100])\<bar> < 2 ^ 52"
    by (simp add: resource_of_def)
  show ?thesis
    by (intro conjI h1 h2 average_utilization_round_half_even [OF h1 h2])
qed

subsection \<open>C5: the empty collection\<close>

text \<open>
  C5: on an empty Resource collection the handler returns \<open>averageUtilization = 0\<close>; the
  division is not evaluated there, and for no collection at all does the handler raise
  \<open>ZeroDivisionError\<close>.
\<close>

theorem stats_empty_no_division_by_zero:
  "api_resource_stats [] ps = Inr (jsonify_data
       \<lparr>totalResources = 0, allocatedResources = 0, availableResources = 0,
        averageUtilization = 0, overallocated = 0, totalProjects = length ps\<rparr>)
   \<and> avg_util [] = Inr 0
   \<and> api_resource_stats rs ps \<noteq> Inl ZeroDivisionError"
  using avg_util_not_zerodiv [of rs]
  by (auto simp: api_resource_stats_def avg_util_def Let_def split: sum.splits)

subsection \<open>C6: the availabilities 0, 20, 100\<close>

text \<open>
  C6 as stated fails: of the availabilities 0, 20 and 100, two are above 0, so
  \<open>availableResources\<close> is 2 and not 1.
\<close>

theorem stats_example_counterexample:
  "api_resource_stats [resource_of 0, resource_of 20, resource_of 100] [] = Inr (jsonify_data
       \<lparr>totalResources = 3, allocatedResources = 2, availableResources = 2,
        averageUtilization = 60, overallocated = 1, totalProjects = 0\<rparr>)
   \<and> availableResources
       \<lparr>totalResources = 3, allocatedResources = 2, availableResources = 2,
        averageUtilization = 60, overallocated = 1, totalProjects = 0\<rparr> \<noteq> 1"
  by (simp add: stats_eval float_eval)

text \<open>
  C6 (amended): for the Resource collection whose availability values are [0, 20, 100] the
  handler returns \<open>averageUtilization = 60\<close>, \<open>allocatedResources = 2\<close>,
  \<open>availableResources = 2\<close> and \<open>overallocated = 1\<close> (with \<open>totalResources = 3\<close>).
\<close>

theorem stats_example:
  assumes "map availability rs = [0, 20, 100]"
  shows "api_resource_stats rs ps = Inr (jsonify_data
       \<lparr>totalResources = 3, allocatedResources = 2, availableResources = 2,
        averageUtilization = 60, overallocated = 1, totalProjects = length ps\<rparr>)"
proof -
  have "length (map availability rs) = 3" by (simp add: assms)
  then have len: "length rs = 3" by simp
  have "map (\<lambda>r. 100 - availability r) rs = map (\<lambda>a. 100 - a) (map availability rs)"
    by simp
  then have s: "sum_list (map (\<lambda>r. 100 - availability r) rs) = 180"
    by (simp add: assms)
  have ne: "rs \<noteq> []" using len by auto
  have avg: "avg_util rs = Inr 60"
    unfolding avg_util_def using ne by (simp add: s len float_eval)
  have c1: "length (filter (\<lambda>r. availability r < 100) rs) = 2"
    using count_availability [of "\<lambda>a. a < 100" rs] by (simp add: assms)
  have c2: "length (filter (\<lambda>r. availability r > 0) rs) = 2"
    using count_availability [of "\<lambda>a. a > 0" rs] by (simp add: assms)
  have c3: "length (filter (\<lambda>r. availability r \<le> 0) rs) = 1"
    using count_availability [of "\<lambda>a. a \<le> 0" rs] by (simp add: assms)
  show ?thesis by (simp add: api_resource_stats_def avg c1 c2 c3 len)
qed

theorem stats_example_witness:
  "map availability [resource_of 0, resource_of 20, resource_of 100] = [0, 20, 100]
   \<and> api_resource_stats [resource_of 0, resource_of 20, resource_of 100] [] = Inr (jsonify_data
       \<lparr>totalResources = 3, allocatedResources = 2, availableResources = 2,
        averageUtilization = 60, overallocated = 1, totalProjects = 0\<rparr>)"
proof -
  have h: "map availability [resource_of 0, resource_of 20, resource_of 100] = [0, 20, 100]"
    by (simp add: resource_of_def)
  show ?thesis using h stats_example [OF h, of "[]"] by simp
qed

subsection \<open>C10: available and overallocated resources\<close>

text \<open>
  C10: for every collection of Resource records, whatever the availabilities, the returned
  statistics satisfy \<open>availableResources + overallocated = totalResources\<close>.
\<close>

theorem available_plus_overallocated:
  assumes "api_resource_stats rs ps = Inr resp"
  shows "\<exists>st. data resp = Some st \<and>
     availableResources st + overallocated st = totalResources st \<and>
     totalResources st = length rs"
proof -
  from api_resource_stats_data [OF assms] obtain avg where
    d: "data resp = Some
       \<lparr>totalResources = length rs,
        allocatedResources = length (filter (\<lambda>r. availability r < 100) rs),
        availableResources = length (filter (\<lambda>r. availability r > 0) rs),
        averageUtilization = avg,
        overallocated = length (filter (\<lambda>r. availability r \<le> 0) rs),
        totalProjects = length ps\<rparr>" by blast
  have "length (filter (\<lambda>r. availability r > 0) rs)
        + length (filter (\<lambda>r. availability r \<le> 0) rs) = length rs"
    by (induction rs) auto
  then show ?thesis unfolding d by simp
qed

theorem available_plus_overallocated_witness:
  "api_resource_stats [resource_of (- 5), resource_of 0, resource_of 130] [] =
     Inr (jsonify_data
       \<lparr>totalResources = 3, allocatedResources = 2, availableResources = 1,
        averageUtilization = 58, overallocated = 2, totalProjects = 0\<rparr>)
   \<and> (\<exists>st. data (jsonify_data
       \<lparr>totalResources = 3, allocatedResources = 2, availableResources = 1,
        averageUtilization = 58, overallocated = 2, totalProjects = 0\<rparr>) = Some st
       \<and> availableResources st + overallocated st = totalResources st
       \<and> totalResources st = length [resource_of (- 5), resource_of 0, resource_of 130])"
proof -
  have h: "api_resource_stats [resource_of (- 5), resource_of 0, resource_of 130] [] =
     Inr (jsonify_data
       \<lparr>totalResources = 3, allocatedResources = 2, availableResources = 1,
        averageUtilization = 58, overallocated = 2, totalProjects = 0\<rparr>)"
    by (simp add: stats_eval float_eval)
  show ?thesis
    by (rule conjI [OF h available_plus_overallocated [OF h]])
qed

section \<open>Properties of authentication\<close>


lemma filter_by_email_Some: "filter_by_email us e = Some u \<Longrightarrow> u \<in> set us \<and> email u = e"
  by (auto simp: filter_by_email_def find_Some_iff)

lemma query_get_Some: "query_get us i = Some u \<Longrightarrow> u \<in> set us \<and> user_id u = i"
  by (auto simp: query_get_def find_Some_iff)


lemma api_login_failure_session:
  "api_login chk e p us sess = Inr (r, se) \<Longrightarrow> \<not> success r \<Longrightarrow> se = sess"
  by (auto simp: api_login_def jsonify_data_def split: option.splits if_splits sum.splits)

lemma handle_keeps_logged_out:
  assumes "session s ''user_id'' = None"
    and "\<not> (is_login q \<and> succeeded (fst (handle gen chk q s)))"
  shows "session (snd (handle gen chk q s)) ''user_id'' = None"
proof (cases q)
  case (Register now n e p pos)
  then show ?thesis using assms(1) by (simp add: case_prod_beta)
next
  case (Login e p)
  show ?thesis
  proof (cases "api_login chk e p (users s) (session s)")
    case (Inl err)
    then show ?thesis using Login assms(1) by simp
  next
    case (Inr rs)
    obtain r se where rs: "rs = (r, se)" by (cases rs)
    with Inr Login assms(2) have "\<not> success r" by (simp add: succeeded_def)
    with Inr rs have "se = session s" using api_login_failure_session by blast
    then show ?thesis using Login Inr rs assms(1) by simp
  qed
next
  case Me
  then show ?thesis using assms(1) by simp
next
  case Logout
  then show ?thesis by (simp add: api_logout_def)
qed

lemma run_keeps_logged_out:
  "session s ''user_id'' = None \<Longrightarrow> no_new_login gen chk qs s \<Longrightarrow>
   session (run gen chk qs s) ''user_id'' = None"
proof (induction qs arbitrary: s)
  case Nil
  then show ?case by simp
next
  case (Cons q qs)
  from Cons.prems have a: "\<not> (is_login q \<and> succeeded (fst (handle gen chk q s)))"
    and b: "no_new_login gen chk qs (snd (handle gen chk q s))" by simp_all
  have "session (snd (handle gen chk q s)) ''user_id'' = None"
    using Cons.prems(1) a by (rule handle_keeps_logged_out)
  from Cons.IH [OF this b] show ?case by simp
qed





lemma User_to_dict_keys:
  "map fst (User_to_dict u) = [''id'', ''name'', ''email'', ''position'', ''createdAt'']"
  by (simp add: User_to_dict_def)

lemma api_register_data:
  assumes "data (fst (api_register gen now n e p pos us)) = Some d"
  shows "d = [(''id'', JInt (next_id us)), (''name'', JStr (the n)), (''email'', JStr (the e)),
              (''position'', JStr (if truthy pos then the pos else ''Developer'')),
              (''createdAt'', JDateTime now)]
       \<and> (\<exists>u. snd (api_register gen now n e p pos us) = us @ [u] \<and> d = User_to_dict u)"
  using assms
  by (auto simp: api_register_def Let_def jsonify_failure_def jsonify_data_def User_to_dict_def
           split: if_splits)

lemma api_register_ignores_password:
  assumes "pw \<noteq> []" and "pw' \<noteq> []"
  shows "fst (api_register gen now n e (Some pw) pos us) =
         fst (api_register gen' now n e (Some pw') pos us)"
  using assms by (simp add: api_register_def Let_def truthy_def User_to_dict_def)

lemma api_login_data:
  assumes "api_login chk e p us sess = Inr (r, se)" and "data r = Some d"
  shows "\<exists>u\<in>set us. d = User_to_dict u \<and> e = Some (email u)"
proof -
  from assms obtain u where t: "truthy e" and f: "filter_by_email us (the e) = Some u"
    and d: "d = User_to_dict u"
    by (auto simp: api_login_def jsonify_failure_def jsonify_data_def
             split: if_splits option.splits sum.splits)
  from f have "u \<in> set us" and "email u = the e" using filter_by_email_Some by blast+
  moreover from t have "e = Some (the e)" by (cases e) (simp_all add: truthy_def)
  ultimately show ?thesis using d by auto
qed

lemma api_me_data:
  assumes "data (api_me us sess) = Some d"
  shows "\<exists>u\<in>set us. d = User_to_dict u \<and> sess ''user_id'' = Some (user_id u)"
proof -
  from assms obtain i u where "sess ''user_id'' = Some i" and q: "query_get us i = Some u"
    and d: "d = User_to_dict u"
    by (auto simp: api_me_def jsonify_failure_def jsonify_data_def split: if_splits option.splits)
  moreover from q have "u \<in> set us" and "user_id u = i" using query_get_Some by blast+
  ultimately show ?thesis by auto
qed

lemmas auth_eval = api_register_def api_login_def api_me_def api_logout_def truthy_def
  filter_by_email_def query_get_def next_id_def seed_user_def toy_check_def toy_hash_def
  jsonify_data_def jsonify_failure_def jsonify_success_def succeeded_def Let_def

subsection \<open>C3: unknown email and wrong password\<close>




subsection \<open>C4: registration and the unique email\<close>



subsection \<open>C7: logout\<close>

text \<open>
  C7: logout succeeds on every session (logged in or not), removes the session's user
  association, and doing it twice is the same as once; who-am-I right after it, and after any
  further requests of the client among which no login succeeds, fails with
  \<open>Not authenticated\<close> and status 401.
\<close>

theorem logout_idempotent_then_not_authenticated:
  "api_logout sess = (jsonify_success, sess(''user_id'' := None))
   \<and> snd (api_logout (snd (api_logout sess))) = snd (api_logout sess)
   \<and> api_me us (snd (api_logout sess)) = jsonify_failure ''Not authenticated'' 401
   \<and> (no_new_login gen chk qs (snd (handle gen chk Logout s)) \<longrightarrow>
        api_me (users (run gen chk qs (snd (handle gen chk Logout s))))
               (session (run gen chk qs (snd (handle gen chk Logout s))))
          = jsonify_failure ''Not authenticated'' 401)"
proof -
  have 1: "api_logout sess = (jsonify_success, sess(''user_id'' := None))"
    by (simp add: api_logout_def)
  have 2: "snd (api_logout (snd (api_logout sess))) = snd (api_logout sess)"
    by (simp add: api_logout_def)
  have 3: "api_me us (snd (api_logout sess)) = jsonify_failure ''Not authenticated'' 401"
    by (simp add: api_logout_def api_me_def)
  have 4: "api_me (users (run gen chk qs (snd (handle gen chk Logout s))))
               (session (run gen chk qs (snd (handle gen chk Logout s))))
          = jsonify_failure ''Not authenticated'' 401"
    if nl: "no_new_login gen chk qs (snd (handle gen chk Logout s))"
  proof -
    have "session (snd (handle gen chk Logout s)) ''user_id'' = None"
      by (simp add: api_logout_def)
    then have "session (run gen chk qs (snd (handle gen chk Logout s))) ''user_id'' = None"
      using nl by (rule run_keeps_logged_out)
    then show ?thesis by (simp add: api_me_def)
  qed
  show ?thesis using 1 2 3 4 by blast
qed

theorem logout_idempotent_then_not_authenticated_witness:
  "no_new_login toy_hash toy_check
     [Me, Login (Some ''john@example.com'') (Some ''wrong''),
      Register 9 (Some ''Ada'') (Some ''ada@example.com'') (Some ''pw'') None, Logout, Me]
     (snd (handle toy_hash toy_check Logout
        \<lparr>users = [seed_user], session = [''user_id'' \<mapsto> 1]\<rparr>))
   \<and> api_me
       (users (run toy_hash toy_check
         [Me, Login (Some ''john@example.com'') (Some ''wrong''),
          Register 9 (Some ''Ada'') (Some ''ada@example.com'') (Some ''pw'') None, Logout, Me]
         (snd (handle toy_hash toy_check Logout
            \<lparr>users = [seed_user], session = [''user_id'' \<mapsto> 1]\<rparr>))))
       (session (run toy_hash toy_check
         [Me, Login (Some ''john@example.com'') (Some ''wrong''),
          Register 9 (Some ''Ada'') (Some ''ada@example.com'') (Some ''pw'') None, Logout, Me]
         (snd (handle toy_hash toy_check Logout
            \<lparr>users = [seed_user], session = [''user_id'' \<mapsto> 1]\<rparr>))))
     = jsonify_failure ''Not authenticated'' 401"
proof -
  have h: "no_new_login toy_hash toy_check
     [Me, Login (Some ''john@example.com'') (Some ''wrong''),
      Register 9 (Some ''Ada'') (Some ''ada@example.com'') (Some ''pw'') None, Logout, Me]
     (snd (handle toy_hash toy_check Logout
        \<lparr>users = [seed_user], session = [''user_id'' \<mapsto> 1]\<rparr>))"
    by (simp add: auth_eval)
  note t = logout_idempotent_then_not_authenticated
    [where gen = toy_hash and chk = toy_check
       and s = "\<lparr>users = [seed_user], session = [''user_id'' \<mapsto> 1]\<rparr>"
       and qs = "[Me, Login (Some ''john@example.com'') (Some ''wrong''),
          Register 9 (Some ''Ada'') (Some ''ada@example.com'') (Some ''pw'') None, Logout, Me]"]
  from t h show ?thesis by blast
qed

subsection \<open>C8: the User representation\<close>

text \<open>
  C8: every payload that register, login or who-am-I returns has exactly the fields id, name,
  email, position and createdAt and is the representation of a row of the store: of the row
  just appended for register, where it holds the new id, the request's name, email and
  position and the clock reading, and does not change with the request's password or the
  hashing; of the stored row with the request's email for login; of the stored row with the
  session's id for who-am-I. The representation of a row does not depend on its password
  hash.
\<close>

theorem user_representation_fields:
  "(data (fst (api_register gen now n e p pos us)) = Some d \<longrightarrow>
      map fst d = [''id'', ''name'', ''email'', ''position'', ''createdAt'']
      \<and> d = [(''id'', JInt (next_id us)), (''name'', JStr (the n)), (''email'', JStr (the e)),
              (''position'', JStr (if truthy pos then the pos else ''Developer'')),
              (''createdAt'', JDateTime now)]
      \<and> (\<exists>v. snd (api_register gen now n e p pos us) = us @ [v] \<and> d = User_to_dict v))
   \<and> (pw \<noteq> [] \<and> pw' \<noteq> [] \<longrightarrow>
        fst (api_register gen now n e (Some pw) pos us) =
        fst (api_register gen' now n e (Some pw') pos us))
   \<and> (api_login chk e p us sess = Inr (r, sess') \<and> data r = Some d \<longrightarrow>
      map fst d = [''id'', ''name'', ''email'', ''position'', ''createdAt'']
      \<and> (\<exists>v\<in>set us. d = User_to_dict v \<and> e = Some (email v)))
   \<and> (data (api_me us sess) = Some d \<longrightarrow>
      map fst d = [''id'', ''name'', ''email'', ''position'', ''createdAt'']
      \<and> (\<exists>v\<in>set us. d = User_to_dict v \<and> sess ''user_id'' = Some (user_id v)))
   \<and> User_to_dict (u\<lparr>password_hash := h\<rparr>) = User_to_dict u"
proof -
  have 1: "map fst d = [''id'', ''name'', ''email'', ''position'', ''createdAt'']
      \<and> d = [(''id'', JInt (next_id us)), (''name'', JStr (the n)), (''email'', JStr (the e)),
              (''position'', JStr (if truthy pos then the pos else ''Developer'')),
              (''createdAt'', JDateTime now)]
      \<and> (\<exists>v. snd (api_register gen now n e p pos us) = us @ [v] \<and> d = User_to_dict v)"
    if a: "data (fst (api_register gen now n e p pos us)) = Some d"
  proof -
    note b = api_register_data [OF a]
    from b obtain v where "d = User_to_dict v" by blast
    then have "map fst d = [''id'', ''name'', ''email'', ''position'', ''createdAt'']"
      by (simp only: User_to_dict_keys)
    with b show ?thesis by blast
  qed
  have 2: "fst (api_register gen now n e (Some pw) pos us) =
        fst (api_register gen' now n e (Some pw') pos us)"
    if "pw \<noteq> [] \<and> pw' \<noteq> []"
    using that api_register_ignores_password by blast
  have 3: "map fst d = [''id'', ''name'', ''email'', ''position'', ''createdAt'']
      \<and> (\<exists>v\<in>set us. d = User_to_dict v \<and> e = Some (email v))"
    if a: "api_login chk e p us sess = Inr (r, sess') \<and> data r = Some d"
  proof -
    from a have b: "\<exists>v\<in>set us. d = User_to_dict v \<and> e = Some (email v)"
      using api_login_data by blast
    then obtain v where "d = User_to_dict v" by blast
    then have "map fst d = [''id'', ''name'', ''email'', ''position'', ''createdAt'']"
      by (simp only: User_to_dict_keys)
    with b show ?thesis by blast
  qed
  have 4: "map fst d = [''id'', ''name'', ''email'', ''position'', ''createdAt'']
      \<and> (\<exists>v\<in>set us. d = User_to_dict v \<and> sess ''user_id'' = Some (user_id v))"
    if a: "data (api_me us sess) = Some d"
  proof -
    from a have b: "\<exists>v\<in>set us. d = User_to_dict v \<and> sess ''user_id'' = Some (user_id v)"
      by (rule api_me_data)
    then obtain v where "d = User_to_dict v" by blast
    then have "map fst d = [''id'', ''name'', ''email'', ''position'', ''createdAt'']"
      by (simp only: User_to_dict_keys)
    with b show ?thesis by blast
  qed
  have 5: "User_to_dict (u\<lparr>password_hash := h\<rparr>) = User_to_dict u"
    by (simp add: User_to_dict_def)
  from 1 2 3 4 5 show ?thesis by blast
qed

theorem user_representation_fields_witness:
  "data (fst (api_register toy_hash 7 (Some ''Ada'') (Some ''ada@example.com'') (Some ''pw'') None []))
     = Some [(''id'', JInt 1), (''name'', JStr ''Ada''), (''email'', JStr ''ada@example.com''),
             (''position'', JStr ''Developer''), (''createdAt'', JDateTime 7)]
   \<and> fst (api_register toy_hash 7 (Some ''Ada'') (Some ''ada@example.com'') (Some ''pw'') None []) =
     fst (api_register id 7 (Some ''Ada'') (Some ''ada@example.com'') (Some ''other'') None [])
   \<and> api_login toy_check (Some ''john@example.com'') (Some ''password'') [seed_user] Map.empty
       = Inr (jsonify_data (User_to_dict seed_user), [''user_id'' \<mapsto> 1])
   \<and> data (api_me [seed_user] [''user_id'' \<mapsto> 1]) = Some (User_to_dict seed_user)
   \<and> map fst [(''id'', JInt 1), (''name'', JStr ''Ada''), (''email'', JStr ''ada@example.com''),
             (''position'', JStr ''Developer''), (''createdAt'', JDateTime 7)]
       = [''id'', ''name'', ''email'', ''position'', ''createdAt'']
   \<and> (\<exists>v\<in>set [seed_user]. User_to_dict seed_user = User_to_dict v
         \<and> Some ''john@example.com'' = Some (email v))
   \<and> (\<exists>v\<in>set [seed_user]. User_to_dict seed_user = User_to_dict v
         \<and> [''user_id'' \<mapsto> 1] ''user_id'' = Some (user_id v))"
proof -
  have r: "data (fst (api_register toy_hash 7 (Some ''Ada'') (Some ''ada@example.com'')
        (Some ''pw'') None []))
     = Some [(''id'', JInt 1), (''name'', JStr ''Ada''), (''email'', JStr ''ada@example.com''),
             (''position'', JStr ''Developer''), (''createdAt'', JDateTime 7)]"
    by (simp add: auth_eval User_to_dict_def)
  have ne: "''pw'' \<noteq> [] \<and> ''other'' \<noteq> []" by simp
  have l: "api_login toy_check (Some ''john@example.com'') (Some ''password'') [seed_user] Map.empty
       = Inr (jsonify_data (User_to_dict seed_user), [''user_id'' \<mapsto> 1])"
    by (simp add: auth_eval)
  have ld: "data (jsonify_data (User_to_dict seed_user)) = Some (User_to_dict seed_user)"
    by (simp add: jsonify_data_def)
  have m: "data (api_me [seed_user] [''user_id'' \<mapsto> 1]) = Some (User_to_dict seed_user)"
    by (simp add: auth_eval)
  note a = user_representation_fields
    [where gen = toy_hash and now = 7 and n = "Some ''Ada''" and e = "Some ''ada@example.com''"
       and p = "Some ''pw''" and pos = None and us = "[]" and gen' = id
       and pw = "''pw''" and pw' = "''other''"
       and d = "[(''id'', JInt 1), (''name'', JStr ''Ada''), (''email'', JStr ''ada@example.com''),
             (''position'', JStr ''Developer''), (''createdAt'', JDateTime 7)]"]
  note b = user_representation_fields
    [where chk = toy_check and e = "Some ''john@example.com''" and p = "Some ''password''"
       and us = "[seed_user]" and sess = Map.empty and d = "User_to_dict seed_user"
       and r = "jsonify_data (User_to_dict seed_user)" and sess' = "[''user_id'' \<mapsto> 1]"]
  note c = user_representation_fields
    [where us = "[seed_user]" and sess = "[''user_id'' \<mapsto> 1]" and d = "User_to_dict seed_user"]
  from a r have 1: "map fst [(''id'', JInt 1), (''name'', JStr ''Ada''),
      (''email'', JStr ''ada@example.com''), (''position'', JStr ''Developer''),
      (''createdAt'', JDateTime 7)] = [''id'', ''name'', ''email'', ''position'', ''createdAt'']"
    by blast
  from a ne have 2: "fst (api_register toy_hash 7 (Some ''Ada'') (Some ''ada@example.com'')
        (Some ''pw'') None []) =
     fst (api_register id 7 (Some ''Ada'') (Some ''ada@example.com'') (Some ''other'') None [])"
    by blast
  from b l ld have 3: "\<exists>v\<in>set [seed_user]. User_to_dict seed_user = User_to_dict v
         \<and> Some ''john@example.com'' = Some (email v)"
    by blast
  from c m have 4: "\<exists>v\<in>set [seed_user]. User_to_dict seed_user = User_to_dict v
         \<and> [''user_id'' \<mapsto> 1] ''user_id'' = Some (user_id v)"
    by blast
  from r l m 1 2 3 4 show ?thesis by blast
qed

section \<open>Properties of the project list\<close>

lemma mset_insort_desc: "mset (insort_desc p ps) = add_mset p (mset ps)"
  by (induction ps) auto

lemma set_insort_desc: "set (insort_desc p ps) = insert p (set ps)"
  by (induction ps) auto

lemma sorted_insort_desc:
  "sorted_wrt (\<lambda>a b. updated_at b \<le> updated_at a) ps \<Longrightarrow>
   sorted_wrt (\<lambda>a b. updated_at b \<le> updated_at a) (insort_desc p ps)"
  by (induction ps) (auto simp: set_insort_desc)

lemma mset_order_by: "mset (order_by_updated_at_desc ps) = mset ps"
  unfolding order_by_updated_at_desc_def by (induction ps) (simp_all add: mset_insort_desc)

lemma sorted_order_by:
  "sorted_wrt (\<lambda>a b. updated_at b \<le> updated_at a) (order_by_updated_at_desc ps)"
  unfolding order_by_updated_at_desc_def by (induction ps) (simp_all add: sorted_insort_desc)

text \<open>
  The representation of a project holds every column: two projects with one representation
  are equal.
\<close>

lemma Project_to_dict_eq_iff: "(Project_to_dict p = Project_to_dict p') = (p = p')"
proof
  assume h: "Project_to_dict p = Project_to_dict p'"
  then have "project_id p = project_id p'" and "project_name p = project_name p'"
    and "status_p p = status_p p'" and "updated_at p = updated_at p'"
    by (simp_all add: Project_to_dict_def)
  moreover from h have "manager p = manager p'"
    by (cases "manager p"; cases "manager p'") (simp_all add: Project_to_dict_def)
  moreover from h have "start_date p = start_date p'"
    by (cases "start_date p"; cases "start_date p'") (simp_all add: Project_to_dict_def)
  moreover from h have "end_date p = end_date p'"
    by (cases "end_date p"; cases "end_date p'") (simp_all add: Project_to_dict_def)
  ultimately show "p = p'" by simp
next
  assume "p = p'"
  then show "Project_to_dict p = Project_to_dict p'" by simp
qed

lemma Project_to_dict_entries:
  "map_of (Project_to_dict p) ''updatedAt'' = Some (JDateTime (updated_at p))"
  "map_of (Project_to_dict p) ''id'' = Some (JInt (project_id p))"
  "map_of (Project_to_dict p) ''name'' = Some (JStr (project_name p))"
  by (simp_all add: Project_to_dict_def)

text \<open>
  C9: list-projects always answers with success (status 200), and its payload is the
  representation of all Project records, each once, ordered by \<open>updated_at\<close> descending: the
  \<open>updatedAt\<close>, \<open>id\<close> and \<open>name\<close> entries of the payload are those of the records in that
  order, and the representation determines the record.
\<close>

theorem projects_listed_newest_first:
  "(\<exists>qs. api_get_projects ps =
          \<lparr>status = 200, success = True, message = None, data = Some (map Project_to_dict qs)\<rparr>
       \<and> mset qs = mset ps
       \<and> sorted_wrt (\<lambda>a b. updated_at b \<le> updated_at a) qs
       \<and> map (\<lambda>d. map_of d ''updatedAt'') (map Project_to_dict qs)
           = map (\<lambda>q. Some (JDateTime (updated_at q))) qs
       \<and> map (\<lambda>d. map_of d ''id'') (map Project_to_dict qs)
           = map (\<lambda>q. Some (JInt (project_id q))) qs
       \<and> map (\<lambda>d. map_of d ''name'') (map Project_to_dict qs)
           = map (\<lambda>q. Some (JStr (project_name q))) qs)
   \<and> (Project_to_dict p = Project_to_dict p') = (p = p')"
proof -
  let ?qs = "order_by_updated_at_desc ps"
  have "api_get_projects ps = \<lparr>status = 200, success = True, message = None,
          data = Some (map Project_to_dict ?qs)\<rparr>"
    by (simp add: api_get_projects_def jsonify_data_def)
  moreover have "mset ?qs = mset ps" by (rule mset_order_by)
  moreover have "sorted_wrt (\<lambda>a b. updated_at b \<le> updated_at a) ?qs" by (rule sorted_order_by)
  moreover have "map (\<lambda>d. map_of d ''updatedAt'') (map Project_to_dict ?qs)
           = map (\<lambda>q. Some (JDateTime (updated_at q))) ?qs"
    by (simp add: Project_to_dict_entries)
  moreover have "map (\<lambda>d. map_of d ''id'') (map Project_to_dict ?qs)
           = map (\<lambda>q. Some (JInt (project_id q))) ?qs"
    by (simp add: Project_to_dict_entries)
  moreover have "map (\<lambda>d. map_of d ''name'') (map Project_to_dict ?qs)
           = map (\<lambda>q. Some (JStr (project_name q))) ?qs"
    by (simp add: Project_to_dict_entries)
  ultimately have "\<exists>qs. api_get_projects ps =
          \<lparr>status = 200, success = True, message = None, data = Some (map Project_to_dict qs)\<rparr>
       \<and> mset qs = mset ps
       \<and> sorted_wrt (\<lambda>a b. updated_at b \<le> updated_at a) qs
       \<and> map (\<lambda>d. map_of d ''updatedAt'') (map Project_to_dict qs)
           = map (\<lambda>q. Some (JDateTime (updated_at q))) qs
       \<and> map (\<lambda>d. map_of d ''id'') (map Project_to_dict qs)
           = map (\<lambda>q. Some (JInt (project_id q))) qs
       \<and> map (\<lambda>d. map_of d ''name'') (map Project_to_dict qs)
           = map (\<lambda>q. Some (JStr (project_name q))) qs"
    by blast
  then show ?thesis using Project_to_dict_eq_iff by blast
qed

theorem projects_listed_newest_first_witness:
  "api_get_projects [seed_project 1 5, seed_project 2 9, seed_project 3 5] =
     \<lparr>status = 200, success = True, message = None,
      data = Some (map Project_to_dict [seed_project 2 9, seed_project 1 5, seed_project 3 5])\<rparr>
   \<and> (\<exists>qs. api_get_projects [seed_project 1 5, seed_project 2 9, seed_project 3 5] =
          \<lparr>status = 200, success = True, message = None, data = Some (map Project_to_dict qs)\<rparr>
       \<and> mset qs = mset [seed_project 1 5, seed_project 2 9, seed_project 3 5]
       \<and> sorted_wrt (\<lambda>a b. updated_at b \<le> updated_at a) qs
       \<and> map (\<lambda>d. map_of d ''updatedAt'') (map Project_to_dict qs)
           = map (\<lambda>q. Some (JDateTime (updated_at q))) qs
       \<and> map (\<lambda>d. map_of d ''id'') (map Project_to_dict qs)
           = map (\<lambda>q. Some (JInt (project_id q))) qs
       \<and> map (\<lambda>d. map_of d ''name'') (map Project_to_dict qs)
           = map (\<lambda>q. Some (JStr (project_name q))) qs)"
proof -
  have e: "api_get_projects [seed_project 1 5, seed_project 2 9, seed_project 3 5] =
     \<lparr>status = 200, success = True, message = None,
      data = Some (map Project_to_dict [seed_project 2 9, seed_project 1 5, seed_project 3 5])\<rparr>"
    by (simp add: api_get_projects_def order_by_updated_at_desc_def jsonify_data_def
          seed_project_def)
  from projects_listed_newest_first [of "[seed_project 1 5, seed_project 2 9, seed_project 3 5]"]
  have "\<exists>qs. api_get_projects [seed_project 1 5, seed_project 2 9, seed_project 3 5] =
          \<lparr>status = 200, success = True, message = None, data = Some (map Project_to_dict qs)\<rparr>
       \<and> mset qs = mset [seed_project 1 5, seed_project 2 9, seed_project 3 5]
       \<and> sorted_wrt (\<lambda>a b. updated_at b \<le> updated_at a) qs
       \<and> map (\<lambda>d. map_of d ''updatedAt'') (map Project_to_dict qs)
           = map (\<lambda>q. Some (JDateTime (updated_at q))) qs
       \<and> map (\<lambda>d. map_of d ''id'') (map Project_to_dict qs)
           = map (\<lambda>q. Some (JInt (project_id q))) qs
       \<and> map (\<lambda>d. map_of d ''name'') (map Project_to_dict qs)
           = map (\<lambda>q. Some (JStr (project_name q))) qs"
    by blast
  with e show ?thesis by (rule conjI)
qed

end
